theory Spec2Isabelle
  imports Main "HOL-Library.Multiset" "HOL-Library.Char_ord" "HOL-Library.List_Lexorder"
    "HOL-Library.Product_Lexorder"
begin

section \<open>Strings\<close>

text \<open>
  A string of the client is a sequence of code units; the model covers the code units
  0 to 255 (the Latin-1 range), one \<open>char\<close> each. On that range the white space of the
  language is TAB, LF, VT, FF, CR, SPACE and NO-BREAK SPACE, and \<open>toLowerCase\<close> works
  character by character: A to Z and the accented capitals U+00C0 to U+00DE (without the
  multiplication sign U+00D7) move up by 32.
\<close>

definition isWhiteSpace :: "char \<Rightarrow> bool" where
  "isWhiteSpace c =
     (let n = (of_char c :: nat)
      in n = 9 \<or> n = 10 \<or> n = 11 \<or> n = 12 \<or> n = 13 \<or> n = 32 \<or> n = 160)"

definition isUpper :: "char \<Rightarrow> bool" where
  "isUpper c =
     (let n = (of_char c :: nat)
      in (65 \<le> n \<and> n \<le> 90) \<or> (192 \<le> n \<and> n \<le> 222 \<and> n \<noteq> 215))"

definition lower_char :: "char \<Rightarrow> char" where
  "lower_char c = (if isUpper c then char_of ((of_char c :: nat) + 32) else c)"

definition toLowerCase :: "string \<Rightarrow> string" where
  "toLowerCase s = map lower_char s"

text \<open>\<open>s.trim()\<close>: white space removed at both ends.\<close>

definition trimStart :: "string \<Rightarrow> string" where
  "trimStart s = dropWhile isWhiteSpace s"

definition trimEnd :: "string \<Rightarrow> string" where
  "trimEnd s = rev (dropWhile isWhiteSpace (rev s))"

definition trim :: "string \<Rightarrow> string" where
  "trim s = trimEnd (trimStart s)"

text \<open>\<open>s.startsWith(p)\<close> and \<open>s.includes(p)\<close>: a search at every position of \<open>s\<close>.\<close>

fun startsWith :: "string \<Rightarrow> string \<Rightarrow> bool" where
  "startsWith s [] = True"
| "startsWith [] (p # ps) = False"
| "startsWith (c # cs) (p # ps) = (c = p \<and> startsWith cs ps)"

fun includes_str :: "string \<Rightarrow> string \<Rightarrow> bool" where
  "includes_str [] needle = (needle = [])"
| "includes_str (c # cs) needle = (startsWith (c # cs) needle \<or> includes_str cs needle)"

text \<open>
  \<open>a.localeCompare(b)\<close> is called without a locale, so the comparison is the one of the
  host; the functions below take it as the parameter \<open>lc\<close>. The examples use the
  following instance, the default collation on strings of ASCII letters and spaces:
  letters are compared without their case first, and lower case goes before upper case
  where nothing else differs.
\<close>

definition collation_key :: "string \<Rightarrow> string \<times> bool list" where
  "collation_key s = (toLowerCase s, map isUpper s)"

definition localeCompare_root :: "string \<Rightarrow> string \<Rightarrow> int" where
  "localeCompare_root a b =
     (if collation_key a = collation_key b then 0
      else if collation_key a < collation_key b then - 1 else 1)"

text \<open>
  \<open>xs.sort(cmp)\<close>: the language standard makes the sort stable, and with a consistent
  comparison function the result is the same for every algorithm. The model inserts each
  element before the first later element it does not exceed.
\<close>

fun insort_cmp :: "('a \<Rightarrow> 'a \<Rightarrow> int) \<Rightarrow> 'a \<Rightarrow> 'a list \<Rightarrow> 'a list" where
  "insort_cmp cmp x [] = [x]"
| "insort_cmp cmp x (y # ys) =
     (if cmp x y \<le> 0 then x # y # ys else y # insort_cmp cmp x ys)"

definition array_sort :: "('a \<Rightarrow> 'a \<Rightarrow> int) \<Rightarrow> 'a list \<Rightarrow> 'a list" where
  "array_sort cmp xs = foldr (insort_cmp cmp) xs []"

text \<open>A comparison function is consistent when "not greater" is total and transitive.\<close>

definition consistent :: "('a \<Rightarrow> 'a \<Rightarrow> int) \<Rightarrow> bool" where
  "consistent cmp \<longleftrightarrow>
     (\<forall>a b. cmp a b \<le> 0 \<or> cmp b a \<le> 0) \<and>
     (\<forall>a b c. cmp a b \<le> 0 \<longrightarrow> cmp b c \<le> 0 \<longrightarrow> cmp a c \<le> 0)"

section \<open>Guest records\<close>

text \<open>
  The form of AddGuest holds the six editable fields (\<open>guestData\<close>); a \<open>Guest\<close> is these
  fields and the identifier given by the record store.
\<close>

record guestData =
  first_name :: string
  last_name :: string
  email :: string
  phone :: string
  address :: string
  date_of_birth :: string

record Guest = guestData +
  guest_id :: string

datatype sort_key = SortName | SortEmail

section \<open>GuestList: the filtered and sorted list\<close>

definition fullName :: "'a guestData_scheme \<Rightarrow> string" where
  "fullName g = first_name g @ '' '' @ last_name g"

definition matchesSearch :: "string \<Rightarrow> Guest \<Rightarrow> bool" where
  "matchesSearch searchTerm g =
     (includes_str (toLowerCase (fullName g)) (toLowerCase searchTerm) \<or>
      includes_str (toLowerCase (email g)) (toLowerCase searchTerm))"

definition compareGuests :: "(string \<Rightarrow> string \<Rightarrow> int) \<Rightarrow> sort_key \<Rightarrow> Guest \<Rightarrow> Guest \<Rightarrow> int" where
  "compareGuests lc sortBy a b =
     (if sortBy = SortName
      then lc (toLowerCase (fullName a)) (toLowerCase (fullName b))
      else lc (toLowerCase (email a)) (toLowerCase (email b)))"

text \<open>The memoised value is the \<open>.filter(...)\<close> step followed by the \<open>.sort(...)\<close> step.\<close>

definition filterGuests :: "string \<Rightarrow> Guest list \<Rightarrow> Guest list" where
  "filterGuests searchTerm guests = filter (matchesSearch searchTerm) guests"

definition sortGuests :: "(string \<Rightarrow> string \<Rightarrow> int) \<Rightarrow> sort_key \<Rightarrow> Guest list \<Rightarrow> Guest list" where
  "sortGuests lc sortBy guests = array_sort (compareGuests lc sortBy) guests"

definition filteredGuests ::
  "(string \<Rightarrow> string \<Rightarrow> int) \<Rightarrow> Guest list \<Rightarrow> string \<Rightarrow> sort_key \<Rightarrow> Guest list" where
  "filteredGuests lc guests searchTerm sortBy =
     sortGuests lc sortBy (filterGuests searchTerm guests)"

section \<open>The record store as the client sees it\<close>

text \<open>
  A field of a fetched record is the text stored in it, or it is missing (\<open>undefined\<close>
  or \<open>null\<close>); the identifier is always there. A rejected call carries the HTTP status
  and, when the store answered, the names of the fields its \<open>response.data\<close> reports.
\<close>

datatype field_value = Undefined | Null | Text string

record RecordModel =
  r_id :: string
  r_first_name :: field_value
  r_last_name :: field_value
  r_email :: field_value
  r_phone :: field_value
  r_address :: field_value
  r_date_of_birth :: field_value

record ClientResponseError =
  status :: int
  response_data :: "string list option"

text \<open>The fields sent by create and update; \<open>None\<close> is \<open>null\<close>.\<close>

record payload =
  p_first_name :: string
  p_last_name :: string
  p_email :: string
  p_phone :: string
  p_address :: string
  p_date_of_birth :: "string option"

datatype call =
    GetFullList
  | GetOne string
  | Create payload
  | Update string payload
  | Delete string


text \<open>\<open>v || ""\<close> on a fetched field.\<close>

fun truthy :: "field_value \<Rightarrow> bool" where
  "truthy Undefined = False"
| "truthy Null = False"
| "truthy (Text s) = (s \<noteq> [])"

definition or_empty :: "field_value \<Rightarrow> string" where
  "or_empty v = (if truthy v then (case v of Text s \<Rightarrow> s | _ \<Rightarrow> []) else [])"

text \<open>
  The mapping of a fetched record to a \<open>Guest\<close>; \<open>fetchGuests\<close> and \<open>fetchGuest\<close> each
  write it out, field by field, with the same text.
\<close>

definition toGuest :: "RecordModel \<Rightarrow> Guest" where
  "toGuest r =
     \<lparr> first_name = or_empty (r_first_name r),
       last_name = or_empty (r_last_name r),
       email = or_empty (r_email r),
       phone = or_empty (r_phone r),
       address = or_empty (r_address r),
       date_of_birth = or_empty (r_date_of_birth r),
       guest_id = r_id r \<rparr>"

section \<open>View state, timers and the loading floor\<close>

text \<open>
  Every view holds \<open>loading\<close> and \<open>error\<close>; \<open>navigated\<close> is the route the view has asked
  the router for, with the \<open>showLoading\<close> flag of the navigation state. A call to
  \<open>setTimeout\<close> that will clear a flag is kept as the time at which it is due. An
  \<open>async\<close> handler is two functions: the part before \<open>await\<close>, which returns the call it
  issues (if any), and the part that runs when the call has settled. \<open>console.error\<close>
  and \<open>alert\<close> change no state and are left out.
\<close>

definition MIN_LOADING_MS :: int where
  "MIN_LOADING_MS = 1000"

record view =
  loading :: bool
  error :: "string option"
  navigated :: "(string \<times> bool) option"

record timed_view = view +
  loading_timers :: "int list"

text \<open>The \<open>finally\<close> block: the delay given to \<open>setTimeout\<close>.\<close>

definition hide_delay :: "int \<Rightarrow> int \<Rightarrow> int" where
  "hide_delay start now =
     (let elapsed = now - start;
          remaining = MIN_LOADING_MS - elapsed
      in if remaining > 0 then remaining else 0)"

text \<open>The event loop at time \<open>t\<close>: the timers that are due run.\<close>

definition tick_loading :: "int \<Rightarrow> 'a timed_view_scheme \<Rightarrow> 'a timed_view_scheme" where
  "tick_loading t v =
     (if list_ex (\<lambda>d. d \<le> t) (loading_timers v)
      then v\<lparr>loading := False, loading_timers := filter (\<lambda>d. t < d) (loading_timers v)\<rparr>
      else v)"

section \<open>GuestList: fetching\<close>

record list_view = timed_view +
  guests :: "Guest list"
  searchTerm :: string
  sortBy :: sort_key

definition GuestList_init :: "bool \<Rightarrow> list_view" where
  "GuestList_init initialShowLoading =
     \<lparr> loading = initialShowLoading, error = None, navigated = None, loading_timers = [],
       guests = [], searchTerm = [], sortBy = SortName \<rparr>"

definition fetchGuests_begin :: "int \<Rightarrow> list_view \<Rightarrow> list_view \<times> call \<times> int" where
  "fetchGuests_begin now v = (v\<lparr>loading := True\<rparr>, GetFullList, now)"

definition fetchGuests_end ::
  "int \<Rightarrow> int \<Rightarrow> ClientResponseError + RecordModel list \<Rightarrow> list_view \<Rightarrow> list_view" where
  "fetchGuests_end start now resp v =
     (let v' = (case resp of
                  Inr records \<Rightarrow> v\<lparr>guests := map toGuest records, error := None\<rparr>
                | Inl err \<Rightarrow> v\<lparr>error := Some ''Failed to load guests. Check console for details.''\<rparr>)
      in v'\<lparr>loading_timers := loading_timers v' @ [now + hide_delay start now]\<rparr>)"

section \<open>AddGuest\<close>

record add_view = view +
  guestData :: guestData

definition AddGuest_init :: add_view where
  "AddGuest_init =
     \<lparr> loading = False, error = None, navigated = None,
       guestData = \<lparr> first_name = [], last_name = [], email = [], phone = [], address = [],
                     date_of_birth = [] \<rparr> \<rparr>"

definition create_payload :: "guestData \<Rightarrow> payload" where
  "create_payload d =
     \<lparr> p_first_name = trim (first_name d),
       p_last_name = trim (last_name d),
       p_email = trim (email d),
       p_phone = trim (phone d),
       p_address = trim (address d),
       p_date_of_birth = (if date_of_birth d \<noteq> [] then Some (date_of_birth d) else None) \<rparr>"

definition handleSubmit_begin :: "add_view \<Rightarrow> add_view \<times> call option" where
  "handleSubmit_begin v =
     (let v1 = v\<lparr>loading := True, error := None\<rparr>;
          d = guestData v
      in if trim (first_name d) = [] \<or> trim (last_name d) = [] \<or> trim (email d) = []
         then (v1\<lparr>error := Some ''First name, last name, and email are required.'',
                  loading := False\<rparr>, None)
         else (v1, Some (Create (create_payload d))))"


text \<open>The submit button and every input of the form carry \<open>disabled={loading}\<close>.\<close>

definition submit_enabled :: "add_view \<Rightarrow> bool" where
  "submit_enabled v = (\<not> loading v)"

section \<open>GuestDetail\<close>

record detail_view = timed_view +
  guest :: "Guest option"
  updating :: bool
  updating_timers :: "int list"

definition GuestDetail_init :: "Guest option \<Rightarrow> detail_view" where
  "GuestDetail_init initialGuest =
     \<lparr> loading = (initialGuest = None), error = None, navigated = None, loading_timers = [],
       guest = initialGuest, updating = False, updating_timers = [] \<rparr>"

definition tick_updating :: "int \<Rightarrow> detail_view \<Rightarrow> detail_view" where
  "tick_updating t v =
     (if list_ex (\<lambda>d. d \<le> t) (updating_timers v)
      then v\<lparr>updating := False, updating_timers := filter (\<lambda>d. t < d) (updating_timers v)\<rparr>
      else v)"

text \<open>
  The effect run on mount: nothing when a guest is held, an error when the route has no
  identifier, the fetch otherwise.
\<close>

definition fetchGuest_begin :: "string \<Rightarrow> int \<Rightarrow> detail_view \<Rightarrow> detail_view \<times> (call \<times> int) option" where
  "fetchGuest_begin i now v = (v\<lparr>loading := True\<rparr>, Some (GetOne i, now))"

definition GuestDetail_effect ::
  "string option \<Rightarrow> int \<Rightarrow> detail_view \<Rightarrow> detail_view \<times> (call \<times> int) option" where
  "GuestDetail_effect idp now v =
     (if guest v \<noteq> None then (v, None)
      else (case idp of
              None \<Rightarrow> (v\<lparr>error := Some ''No guest ID provided'', loading := False\<rparr>, None)
            | Some i \<Rightarrow>
                if i = [] then (v\<lparr>error := Some ''No guest ID provided'', loading := False\<rparr>, None)
                else fetchGuest_begin i now v))"

definition fetchGuest_end ::
  "int \<Rightarrow> int \<Rightarrow> ClientResponseError + RecordModel \<Rightarrow> detail_view \<Rightarrow> detail_view" where
  "fetchGuest_end start now resp v =
     (let v' = (case resp of
                  Inr record \<Rightarrow> v\<lparr>guest := Some (toGuest record), error := None\<rparr>
                | Inl err \<Rightarrow>
                    v\<lparr>error := Some (if status err = 404 then ''Guest not found''
                                      else ''Failed to load guest details'')\<rparr>)
      in v'\<lparr>loading_timers := loading_timers v' @ [now + hide_delay start now]\<rparr>)"

definition update_payload :: "Guest \<Rightarrow> payload" where
  "update_payload g =
     \<lparr> p_first_name = trim (first_name g),
       p_last_name = trim (last_name g),
       p_email = trim (email g),
       p_phone = (if trim (phone g) \<noteq> [] then trim (phone g) else []),
       p_address = (if trim (address g) \<noteq> [] then trim (address g) else []),
       p_date_of_birth = (if date_of_birth g \<noteq> [] then Some (date_of_birth g) else None) \<rparr>"

definition handleUpdate_begin :: "int \<Rightarrow> detail_view \<Rightarrow> detail_view \<times> (call \<times> int) option" where
  "handleUpdate_begin now v =
     (case guest v of
        None \<Rightarrow> (v, None)
      | Some g \<Rightarrow>
          if trim (first_name g) = [] \<or> trim (last_name g) = [] \<or> trim (email g) = []
          then (v\<lparr>error := Some ''First name, last name, and email are required.''\<rparr>, None)
          else (v\<lparr>updating := True, error := None\<rparr>,
                Some (Update (guest_id g) (update_payload g), now)))"

definition handleUpdate_end ::
  "int \<Rightarrow> int \<Rightarrow> ClientResponseError + RecordModel \<Rightarrow> detail_view \<Rightarrow> detail_view" where
  "handleUpdate_end start now resp v =
     (let v' = (case resp of
                  Inr record \<Rightarrow> v\<lparr>navigated := Some (''/guests'', True)\<rparr>
                | Inl err \<Rightarrow>
                    v\<lparr>error := Some (case response_data err of
                                       Some errorData \<Rightarrow>
                                         if ''email'' \<in> set errorData
                                         then ''Email is already in use''
                                         else ''Failed to update guest''
                                     | None \<Rightarrow> ''Failed to update guest'')\<rparr>)
      in v'\<lparr>updating_timers := updating_timers v' @ [now + hide_delay start now]\<rparr>)"

text \<open>\<open>window.confirm\<close> is the parameter \<open>confirm\<close>: the answer given to a question.\<close>

definition delete_question :: "Guest \<Rightarrow> string" where
  "delete_question g =
     ''Are you sure you want to delete '' @ first_name g @ '' '' @ last_name g @ ''?''"

definition handleDelete_begin :: "(string \<Rightarrow> bool) \<Rightarrow> detail_view \<Rightarrow> detail_view \<times> call option" where
  "handleDelete_begin confirm v =
     (case guest v of
        None \<Rightarrow> (v, None)
      | Some g \<Rightarrow>
          if \<not> confirm (delete_question g) then (v, None)
          else (v, Some (Delete (guest_id g))))"

definition handleDelete_end :: "ClientResponseError + unit \<Rightarrow> detail_view \<Rightarrow> detail_view" where
  "handleDelete_end resp v =
     (case resp of
        Inr ok \<Rightarrow> v\<lparr>navigated := Some (''/guests'', True)\<rparr>
      | Inl err \<Rightarrow> v\<lparr>error := Some ''Failed to delete guest. Please try again.''\<rparr>)"

text \<open>
  What GuestDetail renders: a loading or updating text, the "not found" text with a Back
  button, or the form, whose Update, Delete and Back buttons carry \<open>disabled={updating}\<close>.
\<close>

datatype detail_screen =
    LoadingText
  | UpdatingText
  | NotFoundText string
  | Form bool

definition render_detail :: "detail_view \<Rightarrow> detail_screen" where
  "render_detail v =
     (if loading v \<or> updating v then (if loading v then LoadingText else UpdatingText)
      else (case guest v of
              None \<Rightarrow> NotFoundText (case error v of
                                      Some e \<Rightarrow> if e \<noteq> [] then e else ''Guest not found''
                                    | None \<Rightarrow> ''Guest not found'')
            | Some g \<Rightarrow> Form (updating v)))"

text \<open>
  A visit to the detail view: the view and the calls that have been issued and have not
  settled. A click reaches its handler when the form is rendered and the button is enabled.
\<close>

record detail_session =
  dview :: detail_view
  outstanding :: "call list"

definition click_update :: "int \<Rightarrow> detail_session \<Rightarrow> detail_session" where
  "click_update now s =
     (if render_detail (dview s) = Form False
      then (case handleUpdate_begin now (dview s) of
              (v', Some (c, start)) \<Rightarrow> \<lparr>dview = v', outstanding = outstanding s @ [c]\<rparr>
            | (v', None) \<Rightarrow> \<lparr>dview = v', outstanding = outstanding s\<rparr>)
      else s)"

definition click_delete :: "(string \<Rightarrow> bool) \<Rightarrow> detail_session \<Rightarrow> detail_session" where
  "click_delete confirm s =
     (if render_detail (dview s) = Form False
      then (case handleDelete_begin confirm (dview s) of
              (v', Some c) \<Rightarrow> \<lparr>dview = v', outstanding = outstanding s @ [c]\<rparr>
            | (v', None) \<Rightarrow> \<lparr>dview = v', outstanding = outstanding s\<rparr>)
      else s)"

definition update_settles ::
  "call \<Rightarrow> int \<Rightarrow> int \<Rightarrow> ClientResponseError + RecordModel \<Rightarrow> detail_session \<Rightarrow> detail_session" where
  "update_settles c start now resp s =
     \<lparr>dview = handleUpdate_end start now resp (dview s), outstanding = remove1 c (outstanding s)\<rparr>"

definition delete_settles ::
  "call \<Rightarrow> ClientResponseError + unit \<Rightarrow> detail_session \<Rightarrow> detail_session" where
  "delete_settles c resp s =
     \<lparr>dview = handleDelete_end resp (dview s), outstanding = remove1 c (outstanding s)\<rparr>"

text \<open>
  App gives GuestDetail the route \<open>/guests/:id\<close> and GuestList the route \<open>/guests\<close>, the
  only path GuestDetail navigates to: the detail view is on screen until it has navigated,
  and its loading or updating text is on screen while the view is and a flag is set.
\<close>

definition on_detail_view :: "detail_view \<Rightarrow> bool" where
  "on_detail_view v = (navigated v = None)"

definition detail_indicator :: "detail_view \<Rightarrow> bool" where
  "detail_indicator v =
     (on_detail_view v \<and> (render_detail v = LoadingText \<or> render_detail v = UpdatingText))"

section \<open>Example data\<close>

definition jane :: Guest where
  "jane = \<lparr>first_name = ''Jane'', last_name = ''Doe'', email = ''jane@x.com'', phone = [],
            address = [], date_of_birth = [], guest_id = ''abc''\<rparr>"

definition jane_upper :: Guest where
  "jane_upper = \<lparr>first_name = ''JANE'', last_name = ''Doe'', email = ''j.doe@x.com'',
                  phone = [], address = [], date_of_birth = [], guest_id = ''abd''\<rparr>"

definition adam :: Guest where
  "adam = \<lparr>first_name = ''Adam'', last_name = ''Ng'', email = ''zed@x.com'', phone = ''123'',
            address = [], date_of_birth = ''1990-01-31'', guest_id = ''abe''\<rparr>"

definition blank_email :: Guest where
  "blank_email = \<lparr>first_name = ''Jane'', last_name = ''Doe'', email = '' '', phone = [],
                   address = [], date_of_birth = ''1990-01-31'', guest_id = ''abf''\<rparr>"

definition ab_upper :: Guest where
  "ab_upper = \<lparr>first_name = ''A'', last_name = ''b'', email = ''x@y.z'', phone = [],
                address = [], date_of_birth = [], guest_id = ''1''\<rparr>"

definition ab_lower :: Guest where
  "ab_lower = \<lparr>first_name = ''a'', last_name = ''b'', email = ''w@y.z'', phone = [],
                address = [], date_of_birth = [], guest_id = ''2''\<rparr>"

definition jane_draft :: guestData where
  "jane_draft = \<lparr>first_name = '' Jane'', last_name = ''Doe '', email = ''jane@x.com'',
                  phone = '' 555 '', address = [], date_of_birth = []\<rparr>"

definition blank_draft :: guestData where
  "blank_draft = \<lparr>first_name = ''  '', last_name = ''Doe'', email = ''jane@x.com'',
                   phone = [], address = [], date_of_birth = []\<rparr>"

definition jane_record :: RecordModel where
  "jane_record = \<lparr>r_id = ''abc'', r_first_name = Text ''Jane'', r_last_name = Text ''Doe'',
                   r_email = Text ''jane@x.com'', r_phone = Text [], r_address = Undefined,
                   r_date_of_birth = Null\<rparr>"

definition confirm_yes :: "string \<Rightarrow> bool" where
  "confirm_yes question = True"

definition confirm_no :: "string \<Rightarrow> bool" where
  "confirm_no question = False"

section \<open>Properties of the string functions\<close>

lemma startsWith_iff: "startsWith s p \<longleftrightarrow> (\<exists>post. s = p @ post)"
  by (induction s p rule: startsWith.induct) auto

lemma includes_iff: "includes_str s needle \<longleftrightarrow> (\<exists>pre post. s = pre @ needle @ post)"
proof (induction s)
  case Nil
  show ?case by simp
next
  case (Cons c cs)
  show ?case
  proof
    assume "includes_str (c # cs) needle"
    then consider "startsWith (c # cs) needle" | "includes_str cs needle" by auto
    then show "\<exists>pre post. c # cs = pre @ needle @ post"
    proof cases
      case 1
      then obtain post where "c # cs = needle @ post" by (auto simp: startsWith_iff)
      then have "c # cs = [] @ needle @ post" by simp
      then show ?thesis by blast
    next
      case 2
      then obtain pre post where "cs = pre @ needle @ post" using Cons.IH by auto
      then have "c # cs = (c # pre) @ needle @ post" by simp
      then show ?thesis by blast
    qed
  next
    assume "\<exists>pre post. c # cs = pre @ needle @ post"
    then obtain pre post where eq: "c # cs = pre @ needle @ post" by blast
    show "includes_str (c # cs) needle"
    proof (cases pre)
      case Nil
      with eq have "startsWith (c # cs) needle" by (auto simp: startsWith_iff)
      then show ?thesis by simp
    next
      case (Cons d pre')
      with eq have "cs = pre' @ needle @ post" by simp
      then have "includes_str cs needle" using Cons.IH by blast
      then show ?thesis by simp
    qed
  qed
qed

lemma includes_empty: "includes_str s []"
  by (cases s) simp_all

lemma toLowerCase_empty: "toLowerCase [] = []"
  by (simp add: toLowerCase_def)

lemma trim_eq: "trim s = rev (dropWhile isWhiteSpace (rev (dropWhile isWhiteSpace s)))"
  by (simp add: trim_def trimEnd_def trimStart_def)

lemma trim_has_nonspace:
  assumes "trim s \<noteq> []"
  shows "\<exists>c\<in>set (trim s). \<not> isWhiteSpace c"
proof -
  let ?d = "dropWhile isWhiteSpace (rev (dropWhile isWhiteSpace s))"
  have ne: "?d \<noteq> []" using assms by (simp add: trim_eq)
  then have "\<not> isWhiteSpace (hd ?d)" by (rule hd_dropWhile)
  moreover have "hd ?d \<in> set (trim s)" using ne by (simp add: trim_eq)
  ultimately show ?thesis by blast
qed

lemma split_at_end:
  "xs = rev (dropWhile P (rev xs)) @ rev (takeWhile P (rev xs))"
proof -
  have "rev (takeWhile P (rev xs) @ dropWhile P (rev xs)) = xs"
    by (simp only: takeWhile_dropWhile_id rev_rev_ident)
  then show ?thesis by (simp only: rev_append)
qed

lemma prefix_hd: "r \<noteq> [] \<Longrightarrow> a = r @ t \<Longrightarrow> a \<noteq> [] \<and> hd a = hd r"
  by (cases r) auto

lemma dropWhile_hd: "r \<noteq> [] \<Longrightarrow> \<not> P (hd r) \<Longrightarrow> dropWhile P r = r"
  by (cases r) auto

lemma trim_idem: "trim (trim s) = trim s"
proof (cases "trim s = []")
  case True
  have "trim [] = []" by (simp add: trim_eq)
  with True show ?thesis by simp
next
  case False
  let ?a = "dropWhile isWhiteSpace s"
  let ?r = "rev (dropWhile isWhiteSpace (rev ?a))"
  have r: "trim s = ?r" by (rule trim_eq)
  have a: "?a = ?r @ rev (takeWhile isWhiteSpace (rev ?a))" by (rule split_at_end)
  have rne: "?r \<noteq> []" using False r by simp
  have ah: "?a \<noteq> [] \<and> hd ?a = hd ?r" using rne a by (rule prefix_hd)
  then have "\<not> isWhiteSpace (hd ?a)" using hd_dropWhile [of isWhiteSpace s] by blast
  then have "\<not> isWhiteSpace (hd ?r)" using ah by simp
  with rne have "dropWhile isWhiteSpace ?r = ?r" by (rule dropWhile_hd)
  then have "trim ?r = rev (dropWhile isWhiteSpace (rev ?r))" by (simp add: trim_eq)
  also have "\<dots> = ?r" by simp
  finally show ?thesis using r by simp
qed

section \<open>Properties of the sort\<close>

lemma set_insort_cmp: "set (insort_cmp cmp x ys) = insert x (set ys)"
  by (induction ys) auto

lemma mset_insort_cmp: "mset (insort_cmp cmp x ys) = add_mset x (mset ys)"
  by (induction ys) auto

lemma mset_array_sort: "mset (array_sort cmp xs) = mset xs"
  by (induction xs) (auto simp: array_sort_def mset_insort_cmp)

lemma set_array_sort: "set (array_sort cmp xs) = set xs"
  using mset_array_sort [of cmp xs] by (metis set_mset_mset)

lemma array_sort_Cons: "array_sort cmp (x # xs) = insort_cmp cmp x (array_sort cmp xs)"
  by (simp add: array_sort_def)

lemma sorted_insort_cmp:
  assumes "consistent cmp" and "sorted_wrt (\<lambda>a b. cmp a b \<le> 0) ys"
  shows "sorted_wrt (\<lambda>a b. cmp a b \<le> 0) (insort_cmp cmp x ys)"
  using assms(2)
proof (induction ys)
  case Nil
  show ?case by simp
next
  case (Cons y ys)
  have total: "\<And>a b. cmp a b \<le> 0 \<or> cmp b a \<le> 0"
    and trans: "\<And>a b c. cmp a b \<le> 0 \<Longrightarrow> cmp b c \<le> 0 \<Longrightarrow> cmp a c \<le> 0"
    using assms(1) unfolding consistent_def by blast+
  show ?case
  proof (cases "cmp x y \<le> 0")
    case True
    then have "\<forall>z\<in>set ys. cmp x z \<le> 0" using Cons.prems trans by auto
    with True Cons.prems show ?thesis by simp
  next
    case False
    then have "cmp y x \<le> 0" using total [of x y] by simp
    moreover have "sorted_wrt (\<lambda>a b. cmp a b \<le> 0) (insort_cmp cmp x ys)"
      using Cons by simp
    ultimately show ?thesis using False Cons.prems by (auto simp: set_insort_cmp)
  qed
qed

lemma sorted_array_sort:
  "consistent cmp \<Longrightarrow> sorted_wrt (\<lambda>a b. cmp a b \<le> 0) (array_sort cmp xs)"
  by (induction xs) (simp_all add: array_sort_def sorted_insort_cmp)

lemma array_sort_sorted:
  "sorted_wrt (\<lambda>a b. cmp a b \<le> 0) xs \<Longrightarrow> array_sort cmp xs = xs"
proof (induction xs)
  case Nil
  show ?case by (simp add: array_sort_def)
next
  case (Cons x xs)
  then have "array_sort cmp xs = xs" by simp
  then have "array_sort cmp (x # xs) = insort_cmp cmp x xs" by (simp add: array_sort_Cons)
  also have "\<dots> = x # xs" using Cons.prems by (cases xs) auto
  finally show ?case .
qed

text \<open>
  An element that is inserted passes only elements that are strictly smaller, so it never
  passes one that compares equal to it.
\<close>

lemma filter_insort_cmp:
  assumes "consistent cmp"
  shows "filter (\<lambda>y. cmp y k \<le> 0 \<and> cmp k y \<le> 0) (insort_cmp cmp x ys) =
         (if cmp x k \<le> 0 \<and> cmp k x \<le> 0
          then x # filter (\<lambda>y. cmp y k \<le> 0 \<and> cmp k y \<le> 0) ys
          else filter (\<lambda>y. cmp y k \<le> 0 \<and> cmp k y \<le> 0) ys)"
proof (induction ys)
  case Nil
  show ?case by simp
next
  case (Cons y ys)
  have trans: "\<And>a b c. cmp a b \<le> 0 \<Longrightarrow> cmp b c \<le> 0 \<Longrightarrow> cmp a c \<le> 0"
    using assms unfolding consistent_def by blast
  show ?case
  proof (cases "cmp x y \<le> 0")
    case True
    then show ?thesis by simp
  next
    case False
    then have "\<not> (cmp x k \<le> 0 \<and> cmp k y \<le> 0)" using trans by blast
    with False Cons.IH show ?thesis by auto
  qed
qed

lemma array_sort_stable:
  "consistent cmp \<Longrightarrow>
   filter (\<lambda>y. cmp y k \<le> 0 \<and> cmp k y \<le> 0) (array_sort cmp xs) =
   filter (\<lambda>y. cmp y k \<le> 0 \<and> cmp k y \<le> 0) xs"
  by (induction xs) (simp_all add: array_sort_def filter_insort_cmp)

lemma consistent_compareGuests: "consistent lc \<Longrightarrow> consistent (compareGuests lc sk)"
  unfolding consistent_def compareGuests_def by (cases sk) (simp; blast)+

lemma consistent_localeCompare_root: "consistent localeCompare_root"
  unfolding consistent_def localeCompare_root_def by (auto simp: not_less)

lemma sortGuests_sorted:
  "consistent lc \<Longrightarrow> sorted_wrt (\<lambda>a b. compareGuests lc sk a b \<le> 0) (sortGuests lc sk gs)"
  unfolding sortGuests_def by (rule sorted_array_sort) (rule consistent_compareGuests)

section \<open>Facts about the example data\<close>

lemma jane_valid:
  "trim (first_name jane) \<noteq> [] \<and> trim (last_name jane) \<noteq> [] \<and> trim (email jane) \<noteq> []"
  by code_simp

lemma adam_valid:
  "trim (first_name adam) \<noteq> [] \<and> trim (last_name adam) \<noteq> [] \<and> trim (email adam) \<noteq> []"
  by code_simp

lemma jane_draft_valid:
  "trim (first_name jane_draft) \<noteq> [] \<and> trim (last_name jane_draft) \<noteq> [] \<and>
   trim (email jane_draft) \<noteq> []"
  by code_simp

lemma blank_draft_invalid: "trim (first_name blank_draft) = []"
  by code_simp

lemma blank_email_invalid: "trim (email blank_email) = []"
  by code_simp

lemma create_payload_jane_draft:
  "create_payload jane_draft =
     \<lparr>p_first_name = ''Jane'', p_last_name = ''Doe'', p_email = ''jane@x.com'',
      p_phone = ''555'', p_address = [], p_date_of_birth = None\<rparr>"
  by code_simp

lemma update_payload_adam:
  "update_payload adam =
     \<lparr>p_first_name = ''Adam'', p_last_name = ''Ng'', p_email = ''zed@x.com'',
      p_phone = ''123'', p_address = [], p_date_of_birth = Some ''1990-01-31''\<rparr>"
  by code_simp

lemma handleUpdate_begin_jane:
  "handleUpdate_begin t (GuestDetail_init (Some jane)) =
     ((GuestDetail_init (Some jane))\<lparr>updating := True, error := None\<rparr>,
      Some (Update (guest_id jane) (update_payload jane), t))"
  using jane_valid by (simp add: handleUpdate_begin_def GuestDetail_init_def)

lemma handleSubmit_begin_jane_draft:
  "handleSubmit_begin (AddGuest_init\<lparr>guestData := jane_draft\<rparr>) =
     (AddGuest_init\<lparr>guestData := jane_draft, loading := True, error := None\<rparr>,
      Some (Create (create_payload jane_draft)))"
  using jane_draft_valid by (simp add: handleSubmit_begin_def Let_def)

lemma sort_example_name:
  "sortGuests localeCompare_root SortName [jane_upper, adam, jane] = [adam, jane_upper, jane]"
  by code_simp

lemma sort_example_email:
  "sortGuests localeCompare_root SortEmail [jane_upper, adam, jane] = [jane_upper, jane, adam]"
  by code_simp

lemma filter_example: "filterGuests ''DOE'' [jane, adam] = [jane]"
  by code_simp

section \<open>C1: the floor on the loading and updating indicators\<close>

lemma hide_delay_max: "now + hide_delay start now = start + max (now - start) 1000"
  by (simp add: hide_delay_def MIN_LOADING_MS_def Let_def max_def)

lemma tick_loading_single:
  "loading v \<Longrightarrow> loading_timers v = [d] \<Longrightarrow> loading (tick_loading t v) \<longleftrightarrow> t < d"
  by (auto simp: tick_loading_def)

lemma tick_loading_none: "loading_timers v = [] \<Longrightarrow> tick_loading t v = v"
  by (simp add: tick_loading_def)

lemma tick_updating_single:
  "updating v \<Longrightarrow> updating_timers v = [d] \<Longrightarrow> updating (tick_updating t v) \<longleftrightarrow> t < d"
  by (auto simp: tick_updating_def)

lemma tick_updating_none: "updating_timers v = [] \<Longrightarrow> tick_updating t v = v"
  by (simp add: tick_updating_def)

lemma navigated_tick_loading: "navigated (tick_loading t v) = navigated v"
  by (simp add: tick_loading_def)

lemma navigated_tick_updating: "navigated (tick_updating t v) = navigated v"
  by (simp add: tick_updating_def)

lemma fetchGuests_floor:
  assumes "loading_timers lv = []" and "fetchGuests_begin t0 lv = (lv1, c, s)"
  shows "loading lv1 \<and> (\<forall>t. loading (tick_loading t lv1)) \<and>
         (\<forall>t. loading (tick_loading t (fetchGuests_end s t1 r lv1)) \<longleftrightarrow>
              t < t0 + max (t1 - t0) 1000) \<and>
         (\<forall>t. navigated (tick_loading t (fetchGuests_end s t1 r lv1)) = navigated lv)"
proof -
  from assms(2) have lv1: "lv1 = lv\<lparr>loading := True\<rparr>" and s: "s = t0"
    by (auto simp: fetchGuests_begin_def)
  have l1: "loading lv1" and tm: "loading_timers lv1 = []" using lv1 assms(1) by simp_all
  let ?v2 = "fetchGuests_end s t1 r lv1"
  have "loading ?v2" using l1 by (cases r) (simp_all add: fetchGuests_end_def Let_def)
  moreover have "loading_timers ?v2 = [t0 + max (t1 - t0) 1000]"
    using tm s by (cases r) (simp_all add: fetchGuests_end_def Let_def hide_delay_max)
  ultimately have "\<And>t. loading (tick_loading t ?v2) \<longleftrightarrow> t < t0 + max (t1 - t0) 1000"
    by (rule tick_loading_single)
  moreover have "navigated ?v2 = navigated lv"
    using lv1 by (cases r) (simp_all add: fetchGuests_end_def Let_def)
  ultimately show ?thesis
    using l1 tm by (simp add: tick_loading_none navigated_tick_loading)
qed

lemma fetchGuest_floor:
  assumes "loading_timers dv = []" and "GuestDetail_effect idp t0 dv = (dv1, Some (c, s))"
  shows "loading dv1 \<and> (\<forall>t. loading (tick_loading t dv1)) \<and>
         (\<forall>t. loading (tick_loading t (fetchGuest_end s t1 r dv1)) \<longleftrightarrow>
              t < t0 + max (t1 - t0) 1000) \<and>
         (\<forall>t. on_detail_view (tick_loading t (fetchGuest_end s t1 r dv1)) = on_detail_view dv)"
proof -
  from assms(2) have dv1: "dv1 = dv\<lparr>loading := True\<rparr>" and s: "s = t0"
    by (auto simp: GuestDetail_effect_def fetchGuest_begin_def split: if_splits option.splits)
  have l1: "loading dv1" and tm: "loading_timers dv1 = []" using dv1 assms(1) by simp_all
  let ?v2 = "fetchGuest_end s t1 r dv1"
  have "loading ?v2" using l1 by (cases r) (simp_all add: fetchGuest_end_def Let_def)
  moreover have "loading_timers ?v2 = [t0 + max (t1 - t0) 1000]"
    using tm s by (cases r) (simp_all add: fetchGuest_end_def Let_def hide_delay_max)
  ultimately have "\<And>t. loading (tick_loading t ?v2) \<longleftrightarrow> t < t0 + max (t1 - t0) 1000"
    by (rule tick_loading_single)
  moreover have "navigated ?v2 = navigated dv"
    using dv1 by (cases r) (simp_all add: fetchGuest_end_def Let_def)
  ultimately show ?thesis
    using l1 tm by (simp add: tick_loading_none on_detail_view_def navigated_tick_loading)
qed

lemma handleUpdate_floor:
  assumes "updating_timers uv = []" and "handleUpdate_begin t0 uv = (uv1, Some (c, s))"
  shows "updating uv1 \<and> (\<forall>t. updating (tick_updating t uv1)) \<and>
         (\<forall>t. updating (tick_updating t (handleUpdate_end s t1 r uv1)) \<longleftrightarrow>
              t < t0 + max (t1 - t0) 1000) \<and>
         (\<forall>t. on_detail_view (tick_updating t (handleUpdate_end s t1 (Inl e) uv1)) =
              on_detail_view uv)"
proof -
  from assms(2) have uv1: "uv1 = uv\<lparr>updating := True, error := None\<rparr>" and s: "s = t0"
    by (auto simp: handleUpdate_begin_def split: if_splits option.splits)
  have l1: "updating uv1" and tm: "updating_timers uv1 = []" using uv1 assms(1) by simp_all
  let ?v2 = "handleUpdate_end s t1 r uv1"
  have "updating ?v2" using l1 by (cases r) (simp_all add: handleUpdate_end_def Let_def)
  moreover have "updating_timers ?v2 = [t0 + max (t1 - t0) 1000]"
    using tm s by (cases r) (simp_all add: handleUpdate_end_def Let_def hide_delay_max)
  ultimately have "\<And>t. updating (tick_updating t ?v2) \<longleftrightarrow> t < t0 + max (t1 - t0) 1000"
    by (rule tick_updating_single)
  moreover have "navigated (handleUpdate_end s t1 (Inl e) uv1) = navigated uv"
    using uv1 by (simp add: handleUpdate_end_def Let_def)
  ultimately show ?thesis
    using l1 tm by (simp add: tick_updating_none on_detail_view_def navigated_tick_updating)
qed

text \<open>
  The floor on the flags. Let a call be issued at time \<open>t0\<close> with no timer pending and
  settle at time \<open>t1\<close>. For fetchAll, for fetchOne and for update, the flag behind the
  indicator is set when the call starts, no timer clears it while the call is
  outstanding, and after the call has settled the flag is set at time \<open>t\<close> exactly when
  \<open>t < t0 + max (t1 - t0) 1000\<close>: a call shorter than 1000 keeps it until 1000 after the
  start, a longer one until the call completes. A fetch does not navigate, and neither
  does an update that fails, so on these paths the view and its indicator are on screen
  for that time.
\<close>

lemma flag_floor:
  assumes "loading_timers lv = []" and "fetchGuests_begin t0 lv = (lv1, c1, s1)"
    and "loading_timers dv = []" and "GuestDetail_effect idp t0 dv = (dv1, Some (c2, s2))"
    and "updating_timers uv = []" and "handleUpdate_begin t0 uv = (uv1, Some (c3, s3))"
  shows "(loading lv1 \<and> (\<forall>t. loading (tick_loading t lv1)) \<and>
          (\<forall>t. loading (tick_loading t (fetchGuests_end s1 t1 r1 lv1)) \<longleftrightarrow>
               t < t0 + max (t1 - t0) 1000) \<and>
          (\<forall>t. navigated (tick_loading t (fetchGuests_end s1 t1 r1 lv1)) = navigated lv)) \<and>
         (loading dv1 \<and> (\<forall>t. loading (tick_loading t dv1)) \<and>
          (\<forall>t. loading (tick_loading t (fetchGuest_end s2 t1 r2 dv1)) \<longleftrightarrow>
               t < t0 + max (t1 - t0) 1000) \<and>
          (\<forall>t. on_detail_view (tick_loading t (fetchGuest_end s2 t1 r2 dv1)) =
               on_detail_view dv)) \<and>
         (updating uv1 \<and> (\<forall>t. updating (tick_updating t uv1)) \<and>
          (\<forall>t. updating (tick_updating t (handleUpdate_end s3 t1 r3 uv1)) \<longleftrightarrow>
               t < t0 + max (t1 - t0) 1000) \<and>
          (\<forall>t. on_detail_view (tick_updating t (handleUpdate_end s3 t1 (Inl e) uv1)) =
               on_detail_view uv))"
  using fetchGuests_floor [OF assms(1,2), of t1 r1] fetchGuest_floor [OF assms(3,4), of t1 r2]
    handleUpdate_floor [OF assms(5,6), of t1 r3 e]
  by blast

text \<open>
  The floor at a fetch of the list that takes 10 and one that takes 2000, a fetch of a
  guest that is not found after 10, and an update that is rejected after 2000.
\<close>

lemma flag_floor_example:
  "loading_timers (GuestList_init False) = [] \<and>
   fetchGuests_begin 0 (GuestList_init False) =
     ((GuestList_init False)\<lparr>loading := True\<rparr>, GetFullList, 0) \<and>
   loading_timers (GuestDetail_init None) = [] \<and>
   GuestDetail_effect (Some ''abc'') 0 (GuestDetail_init None) =
     ((GuestDetail_init None)\<lparr>loading := True\<rparr>, Some (GetOne ''abc'', 0)) \<and>
   updating_timers (GuestDetail_init (Some jane)) = [] \<and>
   handleUpdate_begin 0 (GuestDetail_init (Some jane)) =
     ((GuestDetail_init (Some jane))\<lparr>updating := True, error := None\<rparr>,
      Some (Update (guest_id jane) (update_payload jane), 0)) \<and>
   (\<forall>t. loading (tick_loading t
           (fetchGuests_end 0 10 (Inr []) ((GuestList_init False)\<lparr>loading := True\<rparr>))) \<longleftrightarrow>
        t < 1000) \<and>
   (\<forall>t. loading (tick_loading t
           (fetchGuests_end 0 2000 (Inr []) ((GuestList_init False)\<lparr>loading := True\<rparr>))) \<longleftrightarrow>
        t < 2000) \<and>
   (\<forall>t. loading (tick_loading t
           (fetchGuest_end 0 10 (Inl \<lparr>status = 404, response_data = None\<rparr>)
              ((GuestDetail_init None)\<lparr>loading := True\<rparr>))) \<longleftrightarrow>
        t < 1000) \<and>
   (\<forall>t. updating (tick_updating t
           (handleUpdate_end 0 2000 (Inl \<lparr>status = 400, response_data = Some [''email'']\<rparr>)
              ((GuestDetail_init (Some jane))\<lparr>updating := True, error := None\<rparr>))) \<longleftrightarrow>
        t < 2000)"
proof -
  have h1: "loading_timers (GuestList_init False) = []"
    by (simp add: GuestList_init_def)
  have h2: "fetchGuests_begin 0 (GuestList_init False) =
     ((GuestList_init False)\<lparr>loading := True\<rparr>, GetFullList, 0)"
    by (simp add: fetchGuests_begin_def)
  have h3: "loading_timers (GuestDetail_init None) = []"
    by (simp add: GuestDetail_init_def)
  have h4: "GuestDetail_effect (Some ''abc'') 0 (GuestDetail_init None) =
     ((GuestDetail_init None)\<lparr>loading := True\<rparr>, Some (GetOne ''abc'', 0))"
    by (simp add: GuestDetail_effect_def fetchGuest_begin_def GuestDetail_init_def)
  have h5: "updating_timers (GuestDetail_init (Some jane)) = []"
    by (simp add: GuestDetail_init_def)
  have h6: "handleUpdate_begin 0 (GuestDetail_init (Some jane)) =
     ((GuestDetail_init (Some jane))\<lparr>updating := True, error := None\<rparr>,
      Some (Update (guest_id jane) (update_payload jane), 0))"
    by (rule handleUpdate_begin_jane)
  show ?thesis
    using h1 h2 h3 h4 h5 h6
      flag_floor [OF h1 h2 h3 h4 h5 h6, of 10 "Inr []"
        "Inl \<lparr>status = 404, response_data = None\<rparr>"]
      flag_floor [OF h1 h2 h3 h4 h5 h6, of 2000 "Inr []" _
        "Inl \<lparr>status = 400, response_data = Some [''email'']\<rparr>"]
    by simp
qed

text \<open>
  An update that succeeds navigates before its \<open>finally\<close> block sets the timer: whatever
  the times, the view has left for the list when the call has settled, and the updating
  text is on screen at no later time.
\<close>

lemma update_success_navigates:
  "navigated (handleUpdate_end s t1 (Inr record) v) = Some (''/guests'', True) \<and>
   \<not> detail_indicator (tick_updating t (handleUpdate_end s t1 (Inr record) v))"
  by (simp add: handleUpdate_end_def Let_def detail_indicator_def on_detail_view_def
      navigated_tick_updating)

text \<open>
  Claim C1 fails for an update that succeeds, where the code misses the floor that its
  \<open>finally\<close> block is written to keep ("Make sure the update shows for at least
  MIN_LOADING_MS") and that the fetches and a failed update do keep. An update of Jane is
  issued at 0 and completes at 10. When it succeeds, the view has navigated to the list
  at 10, and at time 500, before the 1000 of the claim, the updating text is not on
  screen. When the same update is rejected, the updating text is on screen at 500.
\<close>

theorem update_success_leaves_view:
  "handleUpdate_begin 0 (GuestDetail_init (Some jane)) =
     ((GuestDetail_init (Some jane))\<lparr>updating := True, error := None\<rparr>,
      Some (Update (guest_id jane) (update_payload jane), 0)) \<and>
   navigated (handleUpdate_end 0 10 (Inr jane_record)
      ((GuestDetail_init (Some jane))\<lparr>updating := True, error := None\<rparr>)) =
     Some (''/guests'', True) \<and>
   \<not> detail_indicator (tick_updating 500 (handleUpdate_end 0 10 (Inr jane_record)
      ((GuestDetail_init (Some jane))\<lparr>updating := True, error := None\<rparr>))) \<and>
   detail_indicator (tick_updating 500
      (handleUpdate_end 0 10 (Inl \<lparr>status = 400, response_data = Some [''email'']\<rparr>)
         ((GuestDetail_init (Some jane))\<lparr>updating := True, error := None\<rparr>))) \<and>
   (500 :: int) < 0 + max (10 - 0) 1000"
proof -
  let ?v1 = "(GuestDetail_init (Some jane))\<lparr>updating := True, error := None\<rparr>"
  let ?e = "\<lparr>status = 400, response_data = Some [''email'']\<rparr>"
  have "\<not> detail_indicator (tick_updating 500 (handleUpdate_end 0 10 (Inr jane_record) ?v1))"
    and "navigated (handleUpdate_end 0 10 (Inr jane_record) ?v1) = Some (''/guests'', True)"
    by (simp_all add: handleUpdate_end_def Let_def detail_indicator_def on_detail_view_def
        navigated_tick_updating)
  moreover have "detail_indicator (tick_updating 500 (handleUpdate_end 0 10 (Inl ?e) ?v1))"
    by (simp add: handleUpdate_end_def Let_def detail_indicator_def on_detail_view_def
        tick_updating_def render_detail_def hide_delay_def MIN_LOADING_MS_def
        GuestDetail_init_def)
  ultimately show ?thesis using handleUpdate_begin_jane [of 0] by simp
qed

section \<open>C2: the search filter\<close>

lemma filterGuests_spec:
  "filterGuests term gs =
     filter (\<lambda>g. (\<exists>pre post. toLowerCase (first_name g @ '' '' @ last_name g) =
                               pre @ toLowerCase term @ post) \<or>
                 (\<exists>pre post. toLowerCase (email g) = pre @ toLowerCase term @ post)) gs"
  unfolding filterGuests_def
  by (rule filter_cong) (simp_all add: matchesSearch_def includes_iff fullName_def)

lemma filterGuests_empty: "filterGuests [] gs = gs"
  unfolding filterGuests_def
  by (rule filter_True) (simp add: matchesSearch_def toLowerCase_empty includes_empty)

lemma set_filteredGuests: "set (filteredGuests lc gs term sk) = set (filterGuests term gs)"
  by (simp add: filteredGuests_def sortGuests_def set_array_sort)

text \<open>
  Claim C2. The filter keeps, in their order, exactly the guests for which the lowercased
  search term occurs inside the lowercased \<open>first_name last_name\<close> or inside the
  lowercased email; with the empty search term it keeps every guest. The list that is
  displayed (filtered, then sorted) holds the same guests.
\<close>

theorem filter_keeps_matches:
  "filterGuests term gs =
     filter (\<lambda>g. (\<exists>pre post. toLowerCase (first_name g @ '' '' @ last_name g) =
                               pre @ toLowerCase term @ post) \<or>
                 (\<exists>pre post. toLowerCase (email g) = pre @ toLowerCase term @ post)) gs \<and>
   filterGuests [] gs = gs \<and>
   set (filteredGuests lc gs term sk) =
     {g \<in> set gs. (\<exists>pre post. toLowerCase (first_name g @ '' '' @ last_name g) =
                               pre @ toLowerCase term @ post) \<or>
                  (\<exists>pre post. toLowerCase (email g) = pre @ toLowerCase term @ post)} \<and>
   set (filteredGuests lc gs [] sk) = set gs"
proof -
  have "set (filteredGuests lc gs term sk) =
     {g \<in> set gs. (\<exists>pre post. toLowerCase (first_name g @ '' '' @ last_name g) =
                               pre @ toLowerCase term @ post) \<or>
                  (\<exists>pre post. toLowerCase (email g) = pre @ toLowerCase term @ post)}"
    unfolding set_filteredGuests filterGuests_spec [of "term" gs] by (rule set_filter)
  moreover have "set (filteredGuests lc gs [] sk) = set gs"
    by (simp add: set_filteredGuests filterGuests_empty)
  ultimately show ?thesis
    using filterGuests_spec [of "term" gs] filterGuests_empty [of gs] by blast
qed

theorem filter_keeps_matches_witness:
  "filterGuests ''DOE'' [jane, adam] = [jane] \<and>
   [jane] =
     filter (\<lambda>g. (\<exists>pre post. toLowerCase (first_name g @ '' '' @ last_name g) =
                               pre @ toLowerCase ''DOE'' @ post) \<or>
                 (\<exists>pre post. toLowerCase (email g) = pre @ toLowerCase ''DOE'' @ post))
       [jane, adam] \<and>
   filterGuests [] [jane, adam] = [jane, adam]"
  using filter_keeps_matches [of "''DOE''" "[jane, adam]"] filter_example
  by simp

section \<open>C3: a guest that is held is not fetched\<close>

text \<open>
  Claim C3. When the detail view holds a guest (the one passed from the list is the
  initial state), the effect issues no call and leaves the view as it is, so the guest
  shown is the one held and there is no loading state; the effect issues a call, and then
  a get for the identifier of the route, only when no guest is held.
\<close>

theorem fetchOne_skipped:
  "(guest v = Some g \<longrightarrow> GuestDetail_effect idp now v = (v, None)) \<and>
   guest (GuestDetail_init (Some g)) = Some g \<and>
   \<not> loading (GuestDetail_init (Some g)) \<and>
   (GuestDetail_effect idp' now' v' = (v'', Some (c, start)) \<longrightarrow>
      guest v' = None \<and> (\<exists>i. idp' = Some i \<and> i \<noteq> [] \<and> c = GetOne i))"
  by (auto simp: GuestDetail_effect_def GuestDetail_init_def fetchGuest_begin_def
      split: if_splits option.splits)

theorem fetchOne_skipped_witness:
  "guest (GuestDetail_init (Some jane)) = Some jane \<and>
   GuestDetail_effect (Some ''abc'') 5 (GuestDetail_init (Some jane)) =
     (GuestDetail_init (Some jane), None) \<and>
   GuestDetail_effect (Some ''abc'') 5 (GuestDetail_init None) =
     ((GuestDetail_init None)\<lparr>loading := True\<rparr>, Some (GetOne ''abc'', 5)) \<and>
   guest (GuestDetail_init None) = None"
proof -
  have h: "GuestDetail_effect (Some ''abc'') 5 (GuestDetail_init None) =
     ((GuestDetail_init None)\<lparr>loading := True\<rparr>, Some (GetOne ''abc'', 5))"
    by (simp add: GuestDetail_effect_def fetchGuest_begin_def GuestDetail_init_def)
  show ?thesis
    using h fetchOne_skipped [of "GuestDetail_init (Some jane)" jane "Some ''abc''" 5
        "Some ''abc''" 5 "GuestDetail_init None" "(GuestDetail_init None)\<lparr>loading := True\<rparr>"
        "GetOne ''abc''" 5]
    by simp
qed

section \<open>C4: required fields are checked before any call\<close>

lemma handleSubmit_invalid:
  "trim (first_name (guestData v)) = [] \<or> trim (last_name (guestData v)) = [] \<or>
   trim (email (guestData v)) = [] \<Longrightarrow>
   handleSubmit_begin v =
     (v\<lparr>loading := False, error := Some ''First name, last name, and email are required.''\<rparr>,
      None)"
  by (auto simp: handleSubmit_begin_def Let_def)

lemma handleSubmit_issued:
  "handleSubmit_begin v = (v', Some c) \<Longrightarrow>
   trim (first_name (guestData v)) \<noteq> [] \<and> trim (last_name (guestData v)) \<noteq> [] \<and>
   trim (email (guestData v)) \<noteq> [] \<and> c = Create (create_payload (guestData v))"
  by (auto simp: handleSubmit_begin_def Let_def split: if_splits)

lemma handleUpdate_invalid:
  "guest dv = Some g \<Longrightarrow>
   trim (first_name g) = [] \<or> trim (last_name g) = [] \<or> trim (email g) = [] \<Longrightarrow>
   handleUpdate_begin now dv =
     (dv\<lparr>error := Some ''First name, last name, and email are required.''\<rparr>, None)"
  by (auto simp: handleUpdate_begin_def)

lemma handleUpdate_issued:
  "handleUpdate_begin now dv = (dv', Some (c, s)) \<Longrightarrow>
   \<exists>g. guest dv = Some g \<and> trim (first_name g) \<noteq> [] \<and> trim (last_name g) \<noteq> [] \<and>
       trim (email g) \<noteq> [] \<and> c = Update (guest_id g) (update_payload g)"
  by (auto simp: handleUpdate_begin_def split: if_splits option.splits)

text \<open>
  Claim C4. When the first name, the last name or the email of the form (create) or of the
  edited guest (update) is empty after trimming, the handler sets the "required" error and
  issues no call; create also ends its loading state. A call is issued only when the three
  fields are non-empty after trimming.
\<close>

theorem required_fields_validated:
  "(trim (first_name (guestData v)) = [] \<or> trim (last_name (guestData v)) = [] \<or>
    trim (email (guestData v)) = [] \<longrightarrow>
      handleSubmit_begin v =
        (v\<lparr>loading := False, error := Some ''First name, last name, and email are required.''\<rparr>,
         None)) \<and>
   (handleSubmit_begin w = (w', Some c) \<longrightarrow>
      trim (first_name (guestData w)) \<noteq> [] \<and> trim (last_name (guestData w)) \<noteq> [] \<and>
      trim (email (guestData w)) \<noteq> []) \<and>
   (guest dv = Some g \<and>
    (trim (first_name g) = [] \<or> trim (last_name g) = [] \<or> trim (email g) = []) \<longrightarrow>
      handleUpdate_begin now dv =
        (dv\<lparr>error := Some ''First name, last name, and email are required.''\<rparr>, None)) \<and>
   (handleUpdate_begin now' dw = (dw', Some (c', s)) \<longrightarrow>
      (\<exists>h. guest dw = Some h \<and> trim (first_name h) \<noteq> [] \<and> trim (last_name h) \<noteq> [] \<and>
           trim (email h) \<noteq> []))"
  using handleSubmit_invalid [of v] handleSubmit_issued [of w w' c]
    handleUpdate_invalid [of dv g now] handleUpdate_issued [of now' dw dw' c' s]
  by blast

theorem required_fields_validated_witness:
  "trim (first_name (guestData (AddGuest_init\<lparr>guestData := blank_draft\<rparr>))) = [] \<and>
   handleSubmit_begin (AddGuest_init\<lparr>guestData := blank_draft\<rparr>) =
     (AddGuest_init\<lparr>guestData := blank_draft, loading := False,
        error := Some ''First name, last name, and email are required.''\<rparr>, None) \<and>
   handleSubmit_begin (AddGuest_init\<lparr>guestData := jane_draft\<rparr>) =
     (AddGuest_init\<lparr>guestData := jane_draft, loading := True, error := None\<rparr>,
      Some (Create (create_payload jane_draft))) \<and>
   trim (first_name jane_draft) \<noteq> [] \<and> trim (last_name jane_draft) \<noteq> [] \<and>
   trim (email jane_draft) \<noteq> [] \<and>
   guest (GuestDetail_init (Some blank_email)) = Some blank_email \<and>
   trim (email blank_email) = [] \<and>
   handleUpdate_begin 7 (GuestDetail_init (Some blank_email)) =
     ((GuestDetail_init (Some blank_email))
        \<lparr>error := Some ''First name, last name, and email are required.''\<rparr>, None) \<and>
   handleUpdate_begin 7 (GuestDetail_init (Some jane)) =
     ((GuestDetail_init (Some jane))\<lparr>updating := True, error := None\<rparr>,
      Some (Update (guest_id jane) (update_payload jane), 7)) \<and>
   trim (first_name jane) \<noteq> [] \<and> trim (last_name jane) \<noteq> [] \<and> trim (email jane) \<noteq> []"
proof -
  have h1: "trim (first_name (guestData (AddGuest_init\<lparr>guestData := blank_draft\<rparr>))) = []"
    using blank_draft_invalid by simp
  have h2: "handleSubmit_begin (AddGuest_init\<lparr>guestData := jane_draft\<rparr>) =
     (AddGuest_init\<lparr>guestData := jane_draft, loading := True, error := None\<rparr>,
      Some (Create (create_payload jane_draft)))"
    by (rule handleSubmit_begin_jane_draft)
  have h3: "guest (GuestDetail_init (Some blank_email)) = Some blank_email"
    by (simp add: GuestDetail_init_def)
  have h4: "handleUpdate_begin 7 (GuestDetail_init (Some jane)) =
     ((GuestDetail_init (Some jane))\<lparr>updating := True, error := None\<rparr>,
      Some (Update (guest_id jane) (update_payload jane), 7))"
    by (rule handleUpdate_begin_jane)
  have h5: "guest (GuestDetail_init (Some jane)) = Some jane"
    by (simp add: GuestDetail_init_def)
  show ?thesis
    using h1 h2 h3 h4 h5 blank_email_invalid
      required_fields_validated [of "AddGuest_init\<lparr>guestData := blank_draft\<rparr>"
        "AddGuest_init\<lparr>guestData := jane_draft\<rparr>"
        "AddGuest_init\<lparr>guestData := jane_draft, loading := True, error := None\<rparr>"
        "Create (create_payload jane_draft)"
        "GuestDetail_init (Some blank_email)" blank_email 7 7 "GuestDetail_init (Some jane)"
        "(GuestDetail_init (Some jane))\<lparr>updating := True, error := None\<rparr>"
        "Update (guest_id jane) (update_payload jane)" 7]
    by auto
qed

section \<open>C5: messages for remote failures\<close>




section \<open>C6: delete asks first, and a failed delete changes nothing else\<close>

lemma handleDelete_issued:
  "handleDelete_begin confirm v = (v', Some c) \<Longrightarrow>
   \<exists>g. guest v = Some g \<and> confirm (delete_question g) \<and> c = Delete (guest_id g) \<and> v' = v"
  by (auto simp: handleDelete_begin_def split: if_splits option.splits)

lemma click_delete_declined:
  "guest (dview s) = Some g \<Longrightarrow> \<not> confirm (delete_question g) \<Longrightarrow> click_delete confirm s = s"
  by (simp add: click_delete_def handleDelete_begin_def)

text \<open>
  Claim C6. When the question is answered with no, the handler issues no call and the
  view, and with it the visit with its outstanding calls, is unchanged. The delete call is
  issued only after the question for the guest held has been answered with yes. When the
  remote delete fails, the only change is the error "Failed to delete guest. Please try
  again.": the guest held is the same and the view has not navigated.
\<close>

theorem delete_confirmed_and_failure:
  "(guest v = Some g \<and> \<not> confirm (delete_question g) \<longrightarrow>
      handleDelete_begin confirm v = (v, None)) \<and>
   (guest (dview s) = Some g' \<and> \<not> confirm' (delete_question g') \<longrightarrow>
      click_delete confirm' s = s) \<and>
   (handleDelete_begin confirm'' w = (w', Some c) \<longrightarrow>
      (\<exists>h. guest w = Some h \<and> confirm'' (delete_question h) \<and> c = Delete (guest_id h))) \<and>
   handleDelete_end (Inl err) u = u\<lparr>error := Some ''Failed to delete guest. Please try again.''\<rparr> \<and>
   guest (handleDelete_end (Inl err) u) = guest u \<and>
   navigated (handleDelete_end (Inl err) u) = navigated u"
  using handleDelete_issued [of confirm'' w w' c] click_delete_declined [of s g' confirm']
  by (auto simp: handleDelete_begin_def handleDelete_end_def)

theorem delete_confirmed_and_failure_witness:
  "guest (GuestDetail_init (Some jane)) = Some jane \<and> \<not> confirm_no (delete_question jane) \<and>
   handleDelete_begin confirm_no (GuestDetail_init (Some jane)) =
     (GuestDetail_init (Some jane), None) \<and>
   click_delete confirm_no \<lparr>dview = GuestDetail_init (Some jane), outstanding = []\<rparr> =
     \<lparr>dview = GuestDetail_init (Some jane), outstanding = []\<rparr> \<and>
   handleDelete_begin confirm_yes (GuestDetail_init (Some jane)) =
     (GuestDetail_init (Some jane), Some (Delete (guest_id jane))) \<and>
   confirm_yes (delete_question jane) \<and>
   handleDelete_end (Inl \<lparr>status = 500, response_data = None\<rparr>) (GuestDetail_init (Some jane)) =
     (GuestDetail_init (Some jane))\<lparr>error := Some ''Failed to delete guest. Please try again.''\<rparr> \<and>
   guest (handleDelete_end (Inl \<lparr>status = 500, response_data = None\<rparr>)
            (GuestDetail_init (Some jane))) = Some jane \<and>
   navigated (handleDelete_end (Inl \<lparr>status = 500, response_data = None\<rparr>)
            (GuestDetail_init (Some jane))) = None"
proof -
  have h1: "guest (GuestDetail_init (Some jane)) = Some jane"
    and h1': "navigated (GuestDetail_init (Some jane)) = None"
    by (simp_all add: GuestDetail_init_def)
  have h2: "\<not> confirm_no (delete_question jane)" by (simp add: confirm_no_def)
  have h3: "handleDelete_begin confirm_yes (GuestDetail_init (Some jane)) =
     (GuestDetail_init (Some jane), Some (Delete (guest_id jane)))"
    using h1 by (simp add: handleDelete_begin_def confirm_yes_def)
  show ?thesis
    using h1 h1' h2 h3
      delete_confirmed_and_failure [of "GuestDetail_init (Some jane)" jane confirm_no
        "\<lparr>dview = GuestDetail_init (Some jane), outstanding = []\<rparr>" jane confirm_no
        confirm_yes "GuestDetail_init (Some jane)" "GuestDetail_init (Some jane)"
        "Delete (guest_id jane)" "\<lparr>status = 500, response_data = None\<rparr>"
        "GuestDetail_init (Some jane)"]
    by simp
qed

section \<open>C7: in-progress flags\<close>

text \<open>
  Create and update set their flag with the call, and the flag takes the buttons away:
  the submit button of AddGuest is disabled while \<open>loading\<close> is set, and while \<open>updating\<close>
  is set a click on Update or Delete reaches no handler.
\<close>

lemma handleSubmit_sets_flag:
  "handleSubmit_begin v = (v', Some c) \<Longrightarrow> loading v' \<and> \<not> submit_enabled v'"
  by (auto simp: handleSubmit_begin_def submit_enabled_def Let_def split: if_splits)

lemma click_update_sets_flag:
  "click_update now s = s' \<Longrightarrow> outstanding s' \<noteq> outstanding s \<Longrightarrow> updating (dview s')"
  by (auto simp: click_update_def handleUpdate_begin_def
      split: if_splits option.splits prod.splits)

lemma update_blocks_clicks:
  "updating (dview s) \<Longrightarrow> click_update now s = s \<and> click_delete confirm s = s"
  by (simp add: click_update_def click_delete_def render_detail_def split: option.splits)

text \<open>
  Claim C7 fails for delete, which sets no flag. On the detail view of a guest with
  identifier \<open>abc\<close>, Delete is clicked and confirmed, and clicked and confirmed again before
  the first call has settled: both clicks reach the handler and two delete calls for
  \<open>abc\<close> are outstanding; a click on Update in place of the second puts an update of \<open>abc\<close>
  beside the outstanding delete.
\<close>

theorem delete_not_serialised:
  "outstanding
     (click_delete confirm_yes
        (click_delete confirm_yes \<lparr>dview = GuestDetail_init (Some jane), outstanding = []\<rparr>)) =
     [Delete ''abc'', Delete ''abc''] \<and>
   outstanding
     (click_update 3
        (click_delete confirm_yes \<lparr>dview = GuestDetail_init (Some jane), outstanding = []\<rparr>)) =
     [Delete ''abc'', Update ''abc'' (update_payload jane)]"
proof -
  let ?s0 = "\<lparr>dview = GuestDetail_init (Some jane), outstanding = []\<rparr>"
  have r: "render_detail (GuestDetail_init (Some jane)) = Form False"
    by (simp add: render_detail_def GuestDetail_init_def)
  have i: "guest_id jane = ''abc''" by (simp add: jane_def)
  have d: "handleDelete_begin confirm_yes (GuestDetail_init (Some jane)) =
     (GuestDetail_init (Some jane), Some (Delete ''abc''))"
    by (simp add: handleDelete_begin_def confirm_yes_def GuestDetail_init_def i)
  have s1: "click_delete confirm_yes ?s0 =
     \<lparr>dview = GuestDetail_init (Some jane), outstanding = [Delete ''abc'']\<rparr>"
    by (simp add: click_delete_def r d)
  have "click_delete confirm_yes (click_delete confirm_yes ?s0) =
     \<lparr>dview = GuestDetail_init (Some jane), outstanding = [Delete ''abc'', Delete ''abc'']\<rparr>"
    unfolding s1 by (simp add: click_delete_def r d)
  moreover have "outstanding (click_update 3 (click_delete confirm_yes ?s0)) =
     [Delete ''abc'', Update ''abc'' (update_payload jane)]"
    unfolding s1 by (simp add: click_update_def r handleUpdate_begin_jane i)
  ultimately show ?thesis by simp
qed

section \<open>C8: what create and update transmit\<close>

lemma create_payload_fields:
  "p_first_name (create_payload d) = trim (first_name d) \<and>
   p_last_name (create_payload d) = trim (last_name d) \<and>
   p_email (create_payload d) = trim (email d) \<and>
   p_phone (create_payload d) = trim (phone d) \<and>
   p_address (create_payload d) = trim (address d) \<and>
   p_date_of_birth (create_payload d) =
     (if date_of_birth d = [] then None else Some (date_of_birth d))"
  by (simp add: create_payload_def)

lemma update_payload_fields:
  "p_first_name (update_payload g) = trim (first_name g) \<and>
   p_last_name (update_payload g) = trim (last_name g) \<and>
   p_email (update_payload g) = trim (email g) \<and>
   p_phone (update_payload g) = trim (phone g) \<and>
   p_address (update_payload g) = trim (address g) \<and>
   p_date_of_birth (update_payload g) =
     (if date_of_birth g = [] then None else Some (date_of_birth g))"
  by (simp add: update_payload_def)

text \<open>
  Claim C8. A create or an update that is issued transmits the trimmed first name, last
  name, email, phone and address of the form or of the edited guest. The first name, the
  last name and the email it transmits are not empty, hold a character that is not white
  space, and have no white space left to trim. An empty date of birth is transmitted as
  \<open>null\<close>, a non-empty one as it is.
\<close>

theorem payload_trimmed:
  "(handleSubmit_begin v = (v', Some c) \<longrightarrow>
      (\<exists>p. c = Create p \<and>
         p_first_name p = trim (first_name (guestData v)) \<and>
         p_last_name p = trim (last_name (guestData v)) \<and>
         p_email p = trim (email (guestData v)) \<and>
         p_phone p = trim (phone (guestData v)) \<and>
         p_address p = trim (address (guestData v)) \<and>
         p_date_of_birth p =
           (if date_of_birth (guestData v) = [] then None
            else Some (date_of_birth (guestData v))) \<and>
         (\<forall>f\<in>{p_first_name p, p_last_name p, p_email p}.
            f \<noteq> [] \<and> (\<exists>ch\<in>set f. \<not> isWhiteSpace ch) \<and> trim f = f))) \<and>
   (handleUpdate_begin now dv = (dv', Some (c', s)) \<longrightarrow>
      (\<exists>g p. guest dv = Some g \<and> c' = Update (guest_id g) p \<and>
         p_first_name p = trim (first_name g) \<and>
         p_last_name p = trim (last_name g) \<and>
         p_email p = trim (email g) \<and>
         p_phone p = trim (phone g) \<and>
         p_address p = trim (address g) \<and>
         p_date_of_birth p = (if date_of_birth g = [] then None else Some (date_of_birth g)) \<and>
         (\<forall>f\<in>{p_first_name p, p_last_name p, p_email p}.
            f \<noteq> [] \<and> (\<exists>ch\<in>set f. \<not> isWhiteSpace ch) \<and> trim f = f)))"
proof (intro conjI impI)
  assume "handleSubmit_begin v = (v', Some c)"
  then have ne: "trim (first_name (guestData v)) \<noteq> []" "trim (last_name (guestData v)) \<noteq> []"
      "trim (email (guestData v)) \<noteq> []"
    and c: "c = Create (create_payload (guestData v))"
    using handleSubmit_issued by blast+
  show "\<exists>p. c = Create p \<and>
         p_first_name p = trim (first_name (guestData v)) \<and>
         p_last_name p = trim (last_name (guestData v)) \<and>
         p_email p = trim (email (guestData v)) \<and>
         p_phone p = trim (phone (guestData v)) \<and>
         p_address p = trim (address (guestData v)) \<and>
         p_date_of_birth p =
           (if date_of_birth (guestData v) = [] then None
            else Some (date_of_birth (guestData v))) \<and>
         (\<forall>f\<in>{p_first_name p, p_last_name p, p_email p}.
            f \<noteq> [] \<and> (\<exists>ch\<in>set f. \<not> isWhiteSpace ch) \<and> trim f = f)"
    using c ne create_payload_fields [of "guestData v"]
    by (intro exI [of _ "create_payload (guestData v)"]) (simp add: trim_has_nonspace trim_idem)
next
  assume "handleUpdate_begin now dv = (dv', Some (c', s))"
  then obtain g where g: "guest dv = Some g" and ne: "trim (first_name g) \<noteq> []"
      "trim (last_name g) \<noteq> []" "trim (email g) \<noteq> []"
    and c: "c' = Update (guest_id g) (update_payload g)"
    using handleUpdate_issued by blast
  show "\<exists>g p. guest dv = Some g \<and> c' = Update (guest_id g) p \<and>
         p_first_name p = trim (first_name g) \<and>
         p_last_name p = trim (last_name g) \<and>
         p_email p = trim (email g) \<and>
         p_phone p = trim (phone g) \<and>
         p_address p = trim (address g) \<and>
         p_date_of_birth p = (if date_of_birth g = [] then None else Some (date_of_birth g)) \<and>
         (\<forall>f\<in>{p_first_name p, p_last_name p, p_email p}.
            f \<noteq> [] \<and> (\<exists>ch\<in>set f. \<not> isWhiteSpace ch) \<and> trim f = f)"
    using g c ne update_payload_fields [of g]
    by (intro exI [of _ g] exI [of _ "update_payload g"]) (simp add: trim_has_nonspace trim_idem)
qed

theorem payload_trimmed_witness:
  "handleSubmit_begin (AddGuest_init\<lparr>guestData := jane_draft\<rparr>) =
     (AddGuest_init\<lparr>guestData := jane_draft, loading := True, error := None\<rparr>,
      Some (Create \<lparr>p_first_name = ''Jane'', p_last_name = ''Doe'', p_email = ''jane@x.com'',
                    p_phone = ''555'', p_address = [], p_date_of_birth = None\<rparr>)) \<and>
   handleUpdate_begin 3 (GuestDetail_init (Some adam)) =
     ((GuestDetail_init (Some adam))\<lparr>updating := True, error := None\<rparr>,
      Some (Update ''abe'' \<lparr>p_first_name = ''Adam'', p_last_name = ''Ng'', p_email = ''zed@x.com'',
                    p_phone = ''123'', p_address = [], p_date_of_birth = Some ''1990-01-31''\<rparr>, 3)) \<and>
   trim '' Jane'' = ''Jane'' \<and> trim ''Jane'' = ''Jane'' \<and>
   (\<exists>ch\<in>set ''Jane''. \<not> isWhiteSpace ch)"
proof -
  have h1: "handleSubmit_begin (AddGuest_init\<lparr>guestData := jane_draft\<rparr>) =
     (AddGuest_init\<lparr>guestData := jane_draft, loading := True, error := None\<rparr>,
      Some (Create \<lparr>p_first_name = ''Jane'', p_last_name = ''Doe'', p_email = ''jane@x.com'',
                    p_phone = ''555'', p_address = [], p_date_of_birth = None\<rparr>))"
    using handleSubmit_begin_jane_draft by (simp add: create_payload_jane_draft)
  have h2: "handleUpdate_begin 3 (GuestDetail_init (Some adam)) =
     ((GuestDetail_init (Some adam))\<lparr>updating := True, error := None\<rparr>,
      Some (Update ''abe'' \<lparr>p_first_name = ''Adam'', p_last_name = ''Ng'', p_email = ''zed@x.com'',
                    p_phone = ''123'', p_address = [], p_date_of_birth = Some ''1990-01-31''\<rparr>, 3))"
    using adam_valid
    by (simp add: handleUpdate_begin_def GuestDetail_init_def update_payload_adam)
      (simp add: adam_def)
  have f: "first_name (guestData (AddGuest_init\<lparr>guestData := jane_draft\<rparr>)) = '' Jane''"
    by (simp add: jane_draft_def)
  show ?thesis
    using h1 h2 f
      payload_trimmed [of "AddGuest_init\<lparr>guestData := jane_draft\<rparr>"
        "AddGuest_init\<lparr>guestData := jane_draft, loading := True, error := None\<rparr>"
        "Create \<lparr>p_first_name = ''Jane'', p_last_name = ''Doe'', p_email = ''jane@x.com'',
                    p_phone = ''555'', p_address = [], p_date_of_birth = None\<rparr>"
        3 "GuestDetail_init (Some adam)"
        "(GuestDetail_init (Some adam))\<lparr>updating := True, error := None\<rparr>"
        "Update ''abe'' \<lparr>p_first_name = ''Adam'', p_last_name = ''Ng'', p_email = ''zed@x.com'',
                    p_phone = ''123'', p_address = [], p_date_of_birth = Some ''1990-01-31''\<rparr>" 3]
    by auto
qed

section \<open>C9: the sort\<close>

text \<open>
  Claim C9, as amended. For a consistent comparison \<open>lc\<close> of the host, sorting by name
  puts the guests in ascending order of the lowercased \<open>first_name last_name\<close>, and
  sorting by email in ascending order of the lowercased email. The result holds the same
  guests; the sort is stable (the guests whose keys compare equal to the key of any given
  guest \<open>k\<close> keep their order); and sorting the sorted list again by the same key
  changes nothing.
\<close>

theorem sortGuests_ordered:
  assumes "consistent lc"
  shows "sorted_wrt (\<lambda>a b. lc (toLowerCase (first_name a @ '' '' @ last_name a))
                           (toLowerCase (first_name b @ '' '' @ last_name b)) \<le> 0)
           (sortGuests lc SortName gs) \<and>
         sorted_wrt (\<lambda>a b. lc (toLowerCase (email a)) (toLowerCase (email b)) \<le> 0)
           (sortGuests lc SortEmail gs) \<and>
         mset (sortGuests lc sk gs) = mset gs \<and>
         filter (\<lambda>g. compareGuests lc sk g k \<le> 0 \<and> compareGuests lc sk k g \<le> 0)
           (sortGuests lc sk gs) =
         filter (\<lambda>g. compareGuests lc sk g k \<le> 0 \<and> compareGuests lc sk k g \<le> 0) gs \<and>
         sortGuests lc sk (sortGuests lc sk gs) = sortGuests lc sk gs"
proof -
  have c: "consistent (compareGuests lc sk)"
    using assms by (rule consistent_compareGuests)
  have "sorted_wrt (\<lambda>a b. compareGuests lc SortName a b \<le> 0) (sortGuests lc SortName gs)"
    using assms by (rule sortGuests_sorted)
  then have n: "sorted_wrt (\<lambda>a b. lc (toLowerCase (first_name a @ '' '' @ last_name a))
                           (toLowerCase (first_name b @ '' '' @ last_name b)) \<le> 0)
           (sortGuests lc SortName gs)"
    by (simp add: compareGuests_def fullName_def)
  have "sorted_wrt (\<lambda>a b. compareGuests lc SortEmail a b \<le> 0) (sortGuests lc SortEmail gs)"
    using assms by (rule sortGuests_sorted)
  then have e: "sorted_wrt (\<lambda>a b. lc (toLowerCase (email a)) (toLowerCase (email b)) \<le> 0)
           (sortGuests lc SortEmail gs)"
    by (simp add: compareGuests_def)
  have m: "mset (sortGuests lc sk gs) = mset gs"
    by (simp add: sortGuests_def mset_array_sort)
  have st: "filter (\<lambda>g. compareGuests lc sk g k \<le> 0 \<and> compareGuests lc sk k g \<le> 0)
           (sortGuests lc sk gs) =
         filter (\<lambda>g. compareGuests lc sk g k \<le> 0 \<and> compareGuests lc sk k g \<le> 0) gs"
    unfolding sortGuests_def using c by (rule array_sort_stable)
  have "sorted_wrt (\<lambda>a b. compareGuests lc sk a b \<le> 0) (sortGuests lc sk gs)"
    using assms by (rule sortGuests_sorted)
  then have i: "sortGuests lc sk (sortGuests lc sk gs) = sortGuests lc sk gs"
    unfolding sortGuests_def by (rule array_sort_sorted)
  from n e m st i show ?thesis by blast
qed

theorem sortGuests_ordered_witness:
  "consistent localeCompare_root \<and>
   sortGuests localeCompare_root SortName [jane_upper, adam, jane] = [adam, jane_upper, jane] \<and>
   sortGuests localeCompare_root SortEmail [jane_upper, adam, jane] = [jane_upper, jane, adam] \<and>
   sorted_wrt (\<lambda>a b. localeCompare_root (toLowerCase (first_name a @ '' '' @ last_name a))
                           (toLowerCase (first_name b @ '' '' @ last_name b)) \<le> 0)
     [adam, jane_upper, jane] \<and>
   sorted_wrt (\<lambda>a b. localeCompare_root (toLowerCase (email a)) (toLowerCase (email b)) \<le> 0)
     [jane_upper, jane, adam] \<and>
   filter (\<lambda>g. compareGuests localeCompare_root SortName g jane \<le> 0 \<and>
               compareGuests localeCompare_root SortName jane g \<le> 0) [adam, jane_upper, jane] =
   filter (\<lambda>g. compareGuests localeCompare_root SortName g jane \<le> 0 \<and>
               compareGuests localeCompare_root SortName jane g \<le> 0) [jane_upper, adam, jane] \<and>
   sortGuests localeCompare_root SortName [adam, jane_upper, jane] = [adam, jane_upper, jane]"
  using consistent_localeCompare_root sort_example_name sort_example_email
    sortGuests_ordered [OF consistent_localeCompare_root, of "[jane_upper, adam, jane]" SortName jane]
  by simp

text \<open>
  Claim C9 as it was stated orders by the comparison of \<open>first_name last_name\<close> itself.
  The keys are lowercased first: "A b" and "a b" have the same key, so the two guests
  keep their order, although "A b" compares greater than "a b".
\<close>

theorem sort_ignores_case:
  "sortGuests localeCompare_root SortName [ab_upper, ab_lower] = [ab_upper, ab_lower] \<and>
   0 < localeCompare_root (first_name ab_upper @ '' '' @ last_name ab_upper)
         (first_name ab_lower @ '' '' @ last_name ab_lower)"
  by code_simp

section \<open>C10: a fetched guest has every field as a string\<close>

lemma or_empty_cases: "or_empty v = (case v of Text s \<Rightarrow> s | _ \<Rightarrow> [])"
  by (cases v) (simp_all add: or_empty_def)

text \<open>
  Claim C10. After a fetch that succeeds, the guests held by the list are the mapped
  records and the guest held by the detail view is the mapped record. A mapped record
  keeps the identifier, and each of its six other fields is the text of the fetched field
  when there is one and the empty string when the field is \<open>undefined\<close> or \<open>null\<close>.
\<close>

theorem fetched_fields_are_strings:
  "guests (fetchGuests_end s n (Inr rs) lv) = map toGuest rs \<and>
   guest (fetchGuest_end s' n' (Inr r) dv) = Some (toGuest r) \<and>
   guest_id (toGuest r) = r_id r \<and>
   first_name (toGuest r) = (case r_first_name r of Text x \<Rightarrow> x | _ \<Rightarrow> []) \<and>
   last_name (toGuest r) = (case r_last_name r of Text x \<Rightarrow> x | _ \<Rightarrow> []) \<and>
   email (toGuest r) = (case r_email r of Text x \<Rightarrow> x | _ \<Rightarrow> []) \<and>
   phone (toGuest r) = (case r_phone r of Text x \<Rightarrow> x | _ \<Rightarrow> []) \<and>
   address (toGuest r) = (case r_address r of Text x \<Rightarrow> x | _ \<Rightarrow> []) \<and>
   date_of_birth (toGuest r) = (case r_date_of_birth r of Text x \<Rightarrow> x | _ \<Rightarrow> [])"
  by (simp add: fetchGuests_end_def fetchGuest_end_def Let_def toGuest_def or_empty_cases)

theorem fetched_fields_are_strings_witness:
  "guests (fetchGuests_end 0 10 (Inr [jane_record]) (GuestList_init False)) = [jane] \<and>
   guest (fetchGuest_end 0 10 (Inr jane_record) (GuestDetail_init None)) = Some jane \<and>
   r_address jane_record = Undefined \<and> address jane = [] \<and>
   r_date_of_birth jane_record = Null \<and> date_of_birth jane = []"
proof -
  have "toGuest jane_record = jane" by code_simp
  then show ?thesis
    using fetched_fields_are_strings [of 0 10 "[jane_record]" "GuestList_init False" 0 10
        jane_record "GuestDetail_init None"]
    by (simp add: jane_record_def jane_def)
qed

end
